theory Spec2Isabelle
  imports Complex_Main
begin

unbundle bit_operations_syntax

section \<open>Data model of \<open>pykeg/FlowController.py\<close>\<close>

text \<open>
  The module is Python 2: a \<open>str\<close> is a byte string, modelled as \<^typ>\<open>string\<close>
  (\<^typ>\<open>char\<close> is a byte), and \<open>ord\<close> yields the byte's value as an unbounded
  integer. Exceptions are values of \<open>exn\<close>; a method that may raise returns
  \<open>exn + 'a\<close>. Timestamps (\<open>time.time()\<close>) are passed in as an argument: a float
  is the real number it stands for, and where the code computes with floats the rounding
  of each operation is written out (see \<open>fl_result\<close>).
\<close>

datatype exn = SystemExit int | IndexError | AttributeError | OverflowError

datatype level = INFO | ERROR

type_synonym log_entry = "level \<times> string"

record StatusPacket =
  temp :: real
  ticks :: int
  fridge :: int
  valve :: int

text \<open>
  The controller object. \<open>devpipe\<close> holds the bytes written to the device so far,
  \<open>logger\<close> the messages handed to the logger, in order. The lock is held only
  around a single write and is free at every call of a sequential run, so it is not a
  field.
\<close>

record FlowController =
  total_ticks :: int
  last_fridge_time :: real
  status :: "StatusPacket option"
  devpipe :: string
  logger :: "log_entry list"

definition CMD_STATUS :: char where "CMD_STATUS = CHR 0x81"
definition CMD_VALVEON :: char where "CMD_VALVEON = CHR 0x83"
definition CMD_VALVEOFF :: char where "CMD_VALVEOFF = CHR 0x84"
definition CMD_PUSHTICKS :: char where "CMD_PUSHTICKS = CHR 0x87"
definition CMD_NOPUSHTICKS :: char where "CMD_NOPUSHTICKS = CHR 0x88"
definition CMD_FRIDGEON :: char where "CMD_FRIDGEON = CHR 0x90"
definition CMD_FRIDGEOFF :: char where "CMD_FRIDGEOFF = CHR 0x91"
definition CMD_READTEMP :: char where "CMD_READTEMP = CHR 0x93"

section \<open>Python primitives used by the module\<close>

definition py_ord :: "char \<Rightarrow> int" where
  "py_ord c = of_char c"

text \<open>\<open>xs[i]\<close> for a literal index \<open>i \<ge> 0\<close>: IndexError out of range.\<close>

definition py_index :: "'a list \<Rightarrow> nat \<Rightarrow> exn + 'a" where
  "py_index xs i = (if i < length xs then Inr (xs ! i) else Inl IndexError)"

definition startswith :: "string \<Rightarrow> string \<Rightarrow> bool" where
  "startswith s p = (take (length p) s = p)"

definition endswith :: "string \<Rightarrow> string \<Rightarrow> bool" where
  "endswith s p = (length p \<le> length s \<and> drop (length s - length p) s = p)"

text \<open>\<open>s[:-2]\<close> and \<open>s[2:-2]\<close>; both are empty on a string of at most two bytes.\<close>

definition slice_to_m2 :: "string \<Rightarrow> string" where
  "slice_to_m2 s = take (length s - 2) s"

definition slice_2_m2 :: "string \<Rightarrow> string" where
  "slice_2_m2 s = drop 2 (take (length s - 2) s)"

text \<open>\<open>int(x)\<close> on a float truncates towards zero.\<close>

definition py_int :: "real \<Rightarrow> int" where
  "py_int x = (if 0 \<le> x then \<lfloor>x\<rfloor> else \<lceil>x\<rceil>)"

section \<open>StatusPacket\<close>

text \<open>
  \<open>_ConvertTemp\<close>. The integer \<open>(msbyte & 0x7)*256 + lsbyte\<close> is at most 2047 on
  bytes, so its product with 0.0625 is exact in binary floating point and the real
  number below is the float the code returns (with \<open>-0.0\<close> read as \<open>0\<close>).
\<close>

definition ConvertTemp :: "int \<Rightarrow> int \<Rightarrow> real" where
  "ConvertTemp msbyte lsbyte =
     (let val = (msbyte AND 0x7) * 256 + lsbyte;
          val = real_of_int val * 0.0625
      in if drop_bit 3 msbyte \<noteq> 0 then -1 * val else val)"

text \<open>
  \<open>StatusPacket.__init__\<close>: the four assignments in the order of the source, the
  subscripts of each evaluated left to right.
\<close>

definition StatusPacket_init :: "int list \<Rightarrow> exn + StatusPacket" where
  "StatusPacket_init pkt =
     (case py_index pkt 5 of Inl e \<Rightarrow> Inl e | Inr p5 \<Rightarrow>
      case py_index pkt 6 of Inl e \<Rightarrow> Inl e | Inr p6 \<Rightarrow>
      case py_index pkt 3 of Inl e \<Rightarrow> Inl e | Inr p3 \<Rightarrow>
      case py_index pkt 4 of Inl e \<Rightarrow> Inl e | Inr p4 \<Rightarrow>
      case py_index pkt 1 of Inl e \<Rightarrow> Inl e | Inr p1 \<Rightarrow>
      case py_index pkt 2 of Inl e \<Rightarrow> Inl e | Inr p2 \<Rightarrow>
        Inr \<lparr>temp = ConvertTemp p5 p6, ticks = p3 * 256 + p4, fridge = p1, valve = p2\<rparr>)"

section \<open>FlowController\<close>

definition log_msg :: "level \<Rightarrow> string \<Rightarrow> FlowController \<Rightarrow> FlowController" where
  "log_msg l msg s = s\<lparr>logger := logger s @ [(l, msg)]\<rparr>"

text \<open>\<open>self._devpipe.write(c)\<close> between acquiring and releasing the lock.\<close>

definition write_cmd :: "char \<Rightarrow> FlowController \<Rightarrow> FlowController" where
  "write_cmd c s = s\<lparr>devpipe := devpipe s @ [c]\<rparr>"

definition openValve :: "FlowController \<Rightarrow> FlowController" where
  "openValve s = write_cmd CMD_VALVEON s"

definition closeValve :: "FlowController \<Rightarrow> FlowController" where
  "closeValve s = write_cmd CMD_VALVEOFF s"

text \<open>\<open>enableFridge\<close>; \<open>now\<close> is the value of \<open>time.time()\<close> at the call.\<close>

definition enableFridge :: "real \<Rightarrow> FlowController \<Rightarrow> FlowController" where
  "enableFridge now s = write_cmd CMD_FRIDGEON (s\<lparr>last_fridge_time := now\<rparr>)"

definition updateTemp :: "FlowController \<Rightarrow> FlowController" where
  "updateTemp s = write_cmd CMD_READTEMP s"

definition disableFridge :: "FlowController \<Rightarrow> FlowController" where
  "disableFridge s = write_cmd CMD_FRIDGEOFF s"

definition getStatus :: "FlowController \<Rightarrow> FlowController" where
  "getStatus s = write_cmd CMD_STATUS s"

text \<open>
  \<open>__init__\<close>, from the two counters on: the device is opened, the fridge is switched
  off and the snapshot is set to \<open>None\<close>.
\<close>

definition FlowController_init :: FlowController where
  "FlowController_init =
     (disableFridge \<lparr>total_ticks = 0, last_fridge_time = 0, status = None,
                     devpipe = [], logger = []\<rparr>)\<lparr>status := None\<rparr>"

definition fridgeStatus :: "FlowController \<Rightarrow> exn + int" where
  "fridgeStatus s = (case status s of None \<Rightarrow> Inl AttributeError | Some p \<Rightarrow> Inr (fridge p))"

definition readTicks :: "FlowController \<Rightarrow> int" where
  "readTicks s = total_ticks s"

text \<open>
  \<open>recvPacket\<close>; \<open>line\<close> is what \<open>readline()\<close> returned. The result pairs what the
  call returns or raises with the controller afterwards.
\<close>

definition recvPacket ::
  "string \<Rightarrow> FlowController \<Rightarrow> (exn + StatusPacket option) \<times> FlowController" where
  "recvPacket line s =
     (if line = [] then
        (Inl (SystemExit 1), log_msg ERROR ''ERROR: Flow device went away; exiting!'' s)
      else if \<not> startswith line ''M:'' then
        (if startswith line ''K''
         then (Inr None, log_msg INFO (''Found board: '' @ slice_to_m2 line) s)
         else (Inr None, log_msg INFO ''no start of packet; ignoring!'' s))
      else if \<not> endswith line [CHR 0x0D, CHR 0x0A] then
        (Inr None, log_msg INFO ''bad trailer; ignoring!'' s)
      else
        (case StatusPacket_init (map py_ord (slice_2_m2 line)) of
           Inl e \<Rightarrow> (Inl e, s)
         | Inr p \<Rightarrow>
             (Inr (Some p), s\<lparr>status := Some p, total_ticks := total_ticks s + ticks p\<rparr>)))"

text \<open>
  One turn of the \<open>while\<close> loop of \<open>statusLoop\<close>, as seen from outside: the stop event
  was not set, and \<open>select\<close> either timed out or reported the device readable, in
  which case \<open>readline()\<close> returned the given line.
\<close>

datatype poll = Timeout | Readable string

text \<open>
  The \<open>while\<close> loop over the turns taken before the stop event is seen set. An
  exception leaves the loop at once.
\<close>

fun status_while :: "poll list \<Rightarrow> FlowController \<Rightarrow> (exn + unit) \<times> FlowController" where
  "status_while [] s = (Inr (), s)"
| "status_while (Timeout # ps) s = status_while ps s"
| "status_while (Readable line # ps) s =
     (case recvPacket line s of
        (Inl e, s') \<Rightarrow> (Inl e, s')
      | (Inr p, s') \<Rightarrow> status_while ps s')"

text \<open>
  \<open>statusLoop\<close>: the \<open>try\<close> around the loop has a bare \<open>except:\<close>, which catches
  every exception, \<open>SystemExit\<close> included, so the method always returns normally.
\<close>

definition statusLoop :: "poll list \<Rightarrow> FlowController \<Rightarrow> (exn + unit) \<times> FlowController" where
  "statusLoop ps s =
     (case status_while ps (log_msg INFO ''status loop starting'' s) of
        (Inr u, s') \<Rightarrow> (Inr (), log_msg INFO ''status loop exiting'' s')
      | (Inl e, s') \<Rightarrow> (Inr (), log_msg ERROR ''packet read error'' s'))"

definition run :: "poll list \<Rightarrow> FlowController \<Rightarrow> (exn + unit) \<times> FlowController" where
  "run ps s = statusLoop ps s"

text \<open>
  An observer of \<open>recvPacket\<close> for stating properties of frames: whether the call
  returns a packet for the line. What \<open>recvPacket\<close> returns depends on the line only,
  so the controller it is read at is immaterial (\<open>fst_recvPacket_indep\<close> below).
\<close>

definition accepted :: "string \<Rightarrow> bool" where
  "accepted line =
     (case fst (recvPacket line FlowController_init) of Inr (Some p) \<Rightarrow> True | _ \<Rightarrow> False)"

text \<open>
  Two notions on the bytes of a line, independent of \<open>recvPacket\<close>, for stating what
  the loop adds up: a line framed by \<open>M:\<close> and CR LF that is at least eleven bytes long
  (a payload of seven bytes or more), and the tick field of a line, read at bytes 5 and
  6 of the frame (payload bytes 3 and 4), where the class docstring puts the high and
  the low flow ticks.
\<close>

definition long_frame :: "string \<Rightarrow> bool" where
  "long_frame line =
     (startswith line ''M:'' \<and> endswith line [CHR 0x0D, CHR 0x0A] \<and> 11 \<le> length line)"

fun poll_ticks :: "poll \<Rightarrow> int" where
  "poll_ticks Timeout = 0"
| "poll_ticks (Readable line) = py_ord (line ! 5) * 256 + py_ord (line ! 6)"

section \<open>FlowSimulator\<close>

record FlowSimulator =
  sim_fridge :: int
  sim_valve :: int
  sim_ticks :: int
  open_time :: real

definition FlowSimulator_init :: FlowSimulator where
  "FlowSimulator_init = \<lparr>sim_fridge = 0, sim_valve = 0, sim_ticks = 0, open_time = 0\<rparr>"

definition sim_fridgeStatus :: "FlowSimulator \<Rightarrow> int" where
  "sim_fridgeStatus s = sim_fridge s"

text \<open>
  Float arithmetic. The operands are finite doubles. An operation returns the exact
  result rounded to a double, \<open>rnd\<close> of it, where \<open>rnd\<close> is the rounding of the
  platform (IEEE 754 binary64, to nearest), taken as a parameter; an exact result of
  magnitude \<open>2^1024 - 2^970\<close> or more rounds to an infinity, which is \<open>None\<close> here.
\<close>

definition dbl_overflow :: real where
  "dbl_overflow = 2 ^ 1024 - 2 ^ 970"

definition fl_result :: "(real \<Rightarrow> real) \<Rightarrow> real \<Rightarrow> real option" where
  "fl_result rnd x = (if dbl_overflow \<le> \<bar>x\<bar> then None else Some (rnd x))"

text \<open>
  \<open>readTicks\<close>; \<open>now\<close> is the value of \<open>time.time()\<close> at the call. The difference
  and the product with 50 are float operations. An infinite difference gives an infinite
  product, and \<open>int\<close> of an infinity raises \<open>OverflowError\<close>.
\<close>

definition sim_readTicks :: "(real \<Rightarrow> real) \<Rightarrow> real \<Rightarrow> FlowSimulator \<Rightarrow> exn + int" where
  "sim_readTicks rnd now s =
     (case fl_result rnd (now - open_time s) of
        None \<Rightarrow> Inl OverflowError
      | Some d \<Rightarrow>
          (case fl_result rnd (50 * d) of
             None \<Rightarrow> Inl OverflowError
           | Some p \<Rightarrow> Inr (max 0 (py_int p))))"

definition sim_openValve :: "real \<Rightarrow> FlowSimulator \<Rightarrow> FlowSimulator" where
  "sim_openValve now s = s\<lparr>sim_valve := 1, open_time := now\<rparr>"

definition sim_closeValve :: "FlowSimulator \<Rightarrow> FlowSimulator" where
  "sim_closeValve s = s\<lparr>sim_valve := 0\<rparr>"

definition sim_enableFridge :: "FlowSimulator \<Rightarrow> FlowSimulator" where
  "sim_enableFridge s = s\<lparr>sim_fridge := 1\<rparr>"

definition sim_disableFridge :: "FlowSimulator \<Rightarrow> FlowSimulator" where
  "sim_disableFridge s = s\<lparr>sim_fridge := 0\<rparr>"

text \<open>
  What is used of the rounding of doubles: it is monotone, and it leaves the integers up
  to \<open>2^53\<close> in magnitude as they are. \<open>round_1024\<close>, rounding to the nearest multiple
  of 1/1024, is one rounding with both properties.
\<close>

definition double_rounding :: "(real \<Rightarrow> real) \<Rightarrow> bool" where
  "double_rounding rnd =
     ((\<forall>x y. x \<le> y \<longrightarrow> rnd x \<le> rnd y)
      \<and> (\<forall>n::int. \<bar>n\<bar> \<le> 2 ^ 53 \<longrightarrow> rnd (real_of_int n) = real_of_int n))"

definition round_1024 :: "real \<Rightarrow> real" where
  "round_1024 x = real_of_int \<lfloor>x * 1024 + 1 / 2\<rfloor> / 1024"

section \<open>Facts about the decoder and the receive loop\<close>

lemma py_ord_nonneg: "0 \<le> py_ord c"
proof -
  have "py_ord c = int (of_char c)"
    by (simp add: py_ord_def of_nat_of_char)
  then show ?thesis by simp
qed

lemma StatusPacket_init_Inr:
  "StatusPacket_init pkt = Inr p \<longleftrightarrow>
     7 \<le> length pkt \<and>
     p = \<lparr>temp = ConvertTemp (pkt ! 5) (pkt ! 6), ticks = pkt ! 3 * 256 + pkt ! 4,
          fridge = pkt ! 1, valve = pkt ! 2\<rparr>"
  by (auto simp: StatusPacket_init_def py_index_def)

lemma StatusPacket_init_Inl:
  "StatusPacket_init pkt = Inl e \<longleftrightarrow> length pkt < 7 \<and> e = IndexError"
  by (auto simp: StatusPacket_init_def py_index_def)

lemma ticks_nonneg:
  assumes "StatusPacket_init (map py_ord xs) = Inr p"
  shows "0 \<le> ticks p"
proof -
  from assms have len: "7 \<le> length xs"
    and t: "ticks p = map py_ord xs ! 3 * 256 + map py_ord xs ! 4"
    by (simp_all add: StatusPacket_init_Inr)
  from len have "map py_ord xs ! 3 = py_ord (xs ! 3)" "map py_ord xs ! 4 = py_ord (xs ! 4)"
    by simp_all
  with t py_ord_nonneg [of "xs ! 3"] py_ord_nonneg [of "xs ! 4"] show ?thesis
    by simp
qed

lemma fst_recvPacket_indep: "fst (recvPacket line s) = fst (recvPacket line s')"
  by (simp add: recvPacket_def split: sum.splits)

lemma recvPacket_Some:
  "fst (recvPacket line s0) = Inr (Some p) \<Longrightarrow>
   recvPacket line s = (Inr (Some p), s\<lparr>status := Some p, total_ticks := total_ticks s + ticks p\<rparr>)"
  by (auto simp: recvPacket_def split: if_splits sum.splits)

lemma recvPacket_not_Some:
  "\<forall>p. fst (recvPacket line s0) \<noteq> Inr (Some p) \<Longrightarrow>
   total_ticks (snd (recvPacket line s)) = total_ticks s \<and> status (snd (recvPacket line s)) = status s"
  by (auto simp: recvPacket_def log_msg_def split: if_splits sum.splits)

lemma recvPacket_rejected:
  assumes "\<not> accepted line"
  shows "total_ticks (snd (recvPacket line s)) = total_ticks s \<and> status (snd (recvPacket line s)) = status s"
proof -
  from assms have "\<forall>p. fst (recvPacket line FlowController_init) \<noteq> Inr (Some p)"
    by (auto simp: accepted_def)
  then show ?thesis by (rule recvPacket_not_Some)
qed

lemma recvPacket_total_mono: "total_ticks s \<le> total_ticks (snd (recvPacket line s))"
  by (auto simp: recvPacket_def log_msg_def split: sum.splits dest: ticks_nonneg)

lemma status_while_total_mono: "total_ticks s \<le> total_ticks (snd (status_while ps s))"
proof (induction ps arbitrary: s)
  case Nil
  show ?case by simp
next
  case (Cons q ps)
  show ?case
  proof (cases q)
    case Timeout
    with Cons.IH [of s] show ?thesis by simp
  next
    case (Readable line)
    obtain r s' where r: "recvPacket line s = (r, s')" by (cases "recvPacket line s")
    with recvPacket_total_mono [of s line] have le: "total_ticks s \<le> total_ticks s'" by simp
    from Cons.IH [of s'] le have "total_ticks s \<le> total_ticks (snd (status_while ps s'))"
      by simp
    with Readable r le show ?thesis by (cases r) simp_all
  qed
qed

lemma statusLoop_total: "total_ticks (snd (statusLoop ps s)) = total_ticks (snd (status_while ps (log_msg INFO ''status loop starting'' s)))"
  by (simp add: statusLoop_def log_msg_def split: prod.splits sum.splits)

lemma statusLoop_status: "status (snd (statusLoop ps s)) = status (snd (status_while ps (log_msg INFO ''status loop starting'' s)))"
  by (simp add: statusLoop_def log_msg_def split: prod.splits sum.splits)

lemma status_while_rejected:
  "\<forall>line. Readable line \<in> set ps \<longrightarrow> \<not> accepted line \<Longrightarrow>
   status (snd (status_while ps s)) = status s \<and> total_ticks (snd (status_while ps s)) = total_ticks s"
proof (induction ps arbitrary: s)
  case Nil
  show ?case by simp
next
  case (Cons q ps)
  from Cons.prems have rest: "\<forall>line. Readable line \<in> set ps \<longrightarrow> \<not> accepted line" by simp
  show ?case
  proof (cases q)
    case Timeout
    with Cons.IH [OF rest, of s] show ?thesis by simp
  next
    case (Readable line)
    obtain r s' where r: "recvPacket line s = (r, s')" by (cases "recvPacket line s")
    from Cons.prems Readable have "\<not> accepted line" by simp
    with recvPacket_rejected [of line s] r
    have keep: "total_ticks s' = total_ticks s" "status s' = status s" by simp_all
    with Cons.IH [OF rest, of s'] Readable r show ?thesis by (cases r) simp_all
  qed
qed


lemmas frame_eval = recvPacket_def startswith_def endswith_def py_ord_def slice_2_m2_def
  slice_to_m2_def StatusPacket_init_def py_index_def ConvertTemp_def log_msg_def

lemma upper_bits_byte:
  "\<forall>m\<in>set [0..255::int]. (drop_bit 3 m \<noteq> 0) = (m AND 0xF8 \<noteq> 0)"
  by code_simp

lemmas ctl_eval = accepted_def FlowController_init_def disableFridge_def
  write_cmd_def CMD_FRIDGEOFF_def

lemma recvPacket_long_frame:
  assumes "long_frame line"
  shows "recvPacket line s =
     (Inr (Some \<lparr>temp = ConvertTemp (py_ord (line ! 7)) (py_ord (line ! 8)),
                 ticks = py_ord (line ! 5) * 256 + py_ord (line ! 6),
                 fridge = py_ord (line ! 3), valve = py_ord (line ! 4)\<rparr>),
      s\<lparr>status := Some \<lparr>temp = ConvertTemp (py_ord (line ! 7)) (py_ord (line ! 8)),
                          ticks = py_ord (line ! 5) * 256 + py_ord (line ! 6),
                          fridge = py_ord (line ! 3), valve = py_ord (line ! 4)\<rparr>,
        total_ticks := total_ticks s + (py_ord (line ! 5) * 256 + py_ord (line ! 6))\<rparr>)"
proof -
  let ?pkt = "map py_ord (slice_2_m2 line)"
  from assms have len: "11 \<le> length line"
    and m: "startswith line ''M:''" and e: "endswith line [CHR 0x0D, CHR 0x0A]"
    by (simp_all add: long_frame_def)
  from len have ne: "line \<noteq> []" by auto
  from len have l7: "7 \<le> length ?pkt" by (simp add: slice_2_m2_def)
  from len have nth: "?pkt ! 1 = py_ord (line ! 3)" "?pkt ! 2 = py_ord (line ! 4)"
    "?pkt ! 3 = py_ord (line ! 5)" "?pkt ! 4 = py_ord (line ! 6)"
    "?pkt ! 5 = py_ord (line ! 7)" "?pkt ! 6 = py_ord (line ! 8)"
    by (simp_all add: slice_2_m2_def)
  from l7 nth have "StatusPacket_init ?pkt =
      Inr \<lparr>temp = ConvertTemp (py_ord (line ! 7)) (py_ord (line ! 8)),
           ticks = py_ord (line ! 5) * 256 + py_ord (line ! 6),
           fridge = py_ord (line ! 3), valve = py_ord (line ! 4)\<rparr>"
    by (simp add: StatusPacket_init_Inr)
  with ne m e show ?thesis by (simp add: recvPacket_def)
qed

lemma status_while_long_frames:
  "\<forall>line. Readable line \<in> set ps \<longrightarrow> long_frame line \<Longrightarrow>
   fst (status_while ps s) = Inr () \<and>
   total_ticks (snd (status_while ps s)) = total_ticks s + sum_list (map poll_ticks ps)"
proof (induction ps arbitrary: s)
  case Nil
  show ?case by simp
next
  case (Cons q ps)
  from Cons.prems have rest: "\<forall>line. Readable line \<in> set ps \<longrightarrow> long_frame line" by simp
  show ?case
  proof (cases q)
    case Timeout
    with Cons.IH [OF rest, of s] show ?thesis by simp
  next
    case (Readable line)
    with Cons.prems have "long_frame line" by simp
    from recvPacket_long_frame [OF this, of s] obtain p where
      r: "recvPacket line s = (Inr (Some p), s\<lparr>status := Some p,
            total_ticks := total_ticks s + (py_ord (line ! 5) * 256 + py_ord (line ! 6))\<rparr>)"
      by blast
    from Cons.IH [OF rest, of "s\<lparr>status := Some p,
            total_ticks := total_ticks s + (py_ord (line ! 5) * 256 + py_ord (line ! 6))\<rparr>"]
      Readable r
    show ?thesis by simp
  qed
qed

lemma statusLoop_long_frames:
  assumes "\<forall>line. Readable line \<in> set ps \<longrightarrow> long_frame line"
  shows "total_ticks (snd (statusLoop ps s)) = total_ticks s + sum_list (map poll_ticks ps)"
  using status_while_long_frames [OF assms, of "log_msg INFO ''status loop starting'' s"]
  by (simp add: statusLoop_total) (simp add: log_msg_def)

lemma statusLoop_total_mono: "total_ticks s \<le> total_ticks (snd (statusLoop ps s))"
  using status_while_total_mono [of "log_msg INFO ''status loop starting'' s" ps]
  by (simp add: statusLoop_total) (simp add: log_msg_def)

lemma small_below_overflow: "x \<le> 2 ^ 53 \<Longrightarrow> x < dbl_overflow"
  by (simp add: dbl_overflow_def)

lemma rnd_between:
  assumes R: "double_rounding rnd"
    and n: "\<bar>n\<bar> \<le> 2 ^ 53" and m: "\<bar>m\<bar> \<le> 2 ^ 53"
    and x: "real_of_int n \<le> x" "x \<le> real_of_int m"
  shows "real_of_int n \<le> rnd x \<and> rnd x \<le> real_of_int m"
proof -
  from R x have "rnd (real_of_int n) \<le> rnd x" "rnd x \<le> rnd (real_of_int m)"
    by (simp_all add: double_rounding_def)
  moreover from R n m have "rnd (real_of_int n) = real_of_int n" "rnd (real_of_int m) = real_of_int m"
    by (simp_all add: double_rounding_def)
  ultimately show ?thesis by simp
qed

lemma sim_readTicks_in_range:
  assumes R: "double_rounding rnd"
    and m: "m \<le> 180143985094819"
    and x: "\<bar>now - open_time s\<bar> \<le> real_of_int m"
  shows "sim_readTicks rnd now s = Inr (max 0 (py_int (rnd (50 * rnd (now - open_time s)))))"
proof -
  let ?x = "now - open_time s"
  from x have m0: "0 \<le> m" by linarith
  from x have lo: "real_of_int (- m) \<le> ?x" and hi: "?x \<le> real_of_int m" by simp_all
  from m m0 have b: "\<bar>- m\<bar> \<le> 2 ^ 53" "\<bar>m\<bar> \<le> 2 ^ 53" by simp_all
  from rnd_between [OF R b lo hi] have d: "\<bar>rnd ?x\<bar> \<le> real_of_int m" by (auto simp: abs_le_iff)
  from x m have "\<bar>?x\<bar> \<le> 2 ^ 53" by simp
  then have 1: "\<not> dbl_overflow \<le> \<bar>?x\<bar>" using small_below_overflow [of "\<bar>?x\<bar>"] by simp
  from d m have "\<bar>50 * rnd ?x\<bar> \<le> 2 ^ 53" by simp
  then have 2: "\<not> dbl_overflow \<le> \<bar>50 * rnd ?x\<bar>"
    using small_below_overflow [of "\<bar>50 * rnd ?x\<bar>"] by simp
  from 1 2 show ?thesis by (simp add: sim_readTicks_def fl_result_def)
qed

lemma sim_readTicks_bracket:
  assumes R: "double_rounding rnd"
    and n: "0 \<le> n" and m: "m \<le> 180143985094819"
    and x: "real_of_int n \<le> now - open_time s" "now - open_time s \<le> real_of_int m"
  shows "\<exists>k. sim_readTicks rnd now s = Inr k \<and> 50 * n \<le> k \<and> k \<le> 50 * m"
proof -
  let ?x = "now - open_time s"
  from x n have nm: "n \<le> m" by linarith
  from n m nm have b: "\<bar>n\<bar> \<le> 2 ^ 53" "\<bar>m\<bar> \<le> 2 ^ 53" by simp_all
  from rnd_between [OF R b x] have d: "real_of_int n \<le> rnd ?x" "rnd ?x \<le> real_of_int m"
    by simp_all
  then have d50: "real_of_int (50 * n) \<le> 50 * rnd ?x" "50 * rnd ?x \<le> real_of_int (50 * m)"
    by simp_all
  from n m nm have b50: "\<bar>50 * n\<bar> \<le> 2 ^ 53" "\<bar>50 * m\<bar> \<le> 2 ^ 53" by simp_all
  from rnd_between [OF R b50 d50]
  have p: "real_of_int (50 * n) \<le> rnd (50 * rnd ?x)" "rnd (50 * rnd ?x) \<le> real_of_int (50 * m)"
    by simp_all
  from p(1) n have p0: "0 \<le> rnd (50 * rnd ?x)" by simp
  from p(1) have f1: "50 * n \<le> \<lfloor>rnd (50 * rnd ?x)\<rfloor>" by (simp add: le_floor_iff)
  from p(2) have f2: "\<lfloor>rnd (50 * rnd ?x)\<rfloor> \<le> 50 * m" by (simp add: floor_le_iff) 
  from x n have xa: "\<bar>?x\<bar> \<le> real_of_int m" by simp
  from sim_readTicks_in_range [OF R m xa] p0 f1 f2 n show ?thesis
    by (simp add: py_int_def)
qed

lemma round_1024_rounding: "double_rounding round_1024"
proof -
  have mono: "round_1024 x \<le> round_1024 y" if "x \<le> y" for x y
  proof -
    from that have "x * 1024 + 1 / 2 \<le> y * 1024 + 1 / 2" by simp
    then have "\<lfloor>x * 1024 + 1 / 2\<rfloor> \<le> \<lfloor>y * 1024 + 1 / 2\<rfloor>" by (rule floor_mono)
    then show ?thesis by (simp add: round_1024_def divide_right_mono)
  qed
  have ex: "round_1024 (real_of_int n) = real_of_int n" for n
  proof -
    have "\<lfloor>real_of_int n * 1024 + 1 / 2\<rfloor> = n * 1024"
      by (simp add: floor_unique)
    then show ?thesis by (simp add: round_1024_def)
  qed
  from mono ex show ?thesis by (simp add: double_rounding_def)
qed


section \<open>Frame validation and decoding\<close>

text \<open>
  C1. A frame whose payload (the bytes between \<open>M:\<close> and CR LF) is not five bytes
  long is to be rejected without an exception, leaving \<open>total_ticks\<close> and the held
  snapshot alone. \<open>recvPacket\<close> has no length check. Evaluated at a frame with a
  seven-byte payload, it returns a packet, replaces the snapshot and adds 5 to
  \<open>total_ticks\<close>; evaluated at the frame with the empty payload, it raises
  \<open>IndexError\<close>.
\<close>

theorem recvPacket_no_length_check:
  "recvPacket [CHR ''M'', CHR '':'', CHR 0x01, CHR 0x00, CHR 0x01, CHR 0x00, CHR 0x05,
               CHR 0x00, CHR 0x10, CHR 0x0D, CHR 0x0A] s =
     (Inr (Some \<lparr>temp = 1, ticks = 5, fridge = 0, valve = 1\<rparr>),
      s\<lparr>status := Some \<lparr>temp = 1, ticks = 5, fridge = 0, valve = 1\<rparr>,
        total_ticks := total_ticks s + 5\<rparr>)
   \<and> recvPacket [CHR ''M'', CHR '':'', CHR 0x0D, CHR 0x0A] s = (Inl IndexError, s)"
  by (simp add: frame_eval)

text \<open>
  C2. Decoding a frame \<open>M:\<close>, five payload bytes, CR LF is to complete without
  raising. For every choice of the five bytes, \<open>StatusPacket.__init__\<close> raises
  \<open>IndexError\<close> at \<open>pkt[5]\<close>, \<open>recvPacket\<close> passes the exception on with the
  controller untouched, and \<open>statusLoop\<close> catches it, logs \<open>packet read error\<close> and
  returns without reading the lines after it.
\<close>

theorem valid_frame_raises_IndexError:
  "StatusPacket_init (map py_ord [b0, b1, b2, b3, b4]) = Inl IndexError
   \<and> recvPacket [CHR ''M'', CHR '':'', b0, b1, b2, b3, b4, CHR 0x0D, CHR 0x0A] s
       = (Inl IndexError, s)
   \<and> statusLoop (Readable [CHR ''M'', CHR '':'', b0, b1, b2, b3, b4, CHR 0x0D, CHR 0x0A] # ps) s
       = (Inr (), s\<lparr>logger := logger s @ [(INFO, ''status loop starting''),
                                             (ERROR, ''packet read error'')]\<rparr>)"
  by (simp add: statusLoop_def recvPacket_def startswith_def endswith_def slice_2_m2_def
      StatusPacket_init_def py_index_def log_msg_def)

text \<open>
  C3. On an accepted payload the decoder is to give the fridge state from payload byte
  1, the valve state from payload byte 2 and the tick count as payload byte 3 times 256
  plus payload byte 4. \<open>StatusPacket.__init__\<close> reads these positions, but only after
  \<open>pkt[5]\<close> and \<open>pkt[6]\<close>: it returns a packet exactly on the payloads of seven bytes
  or more, with the three fields at the positions named, and raises \<open>IndexError\<close> on
  every shorter payload. The five-byte payload of the documented frame is among these:
  on the payload 1, 0, 1, 0, 5, where fridge 0, valve 1 and 5 ticks are due, no packet
  is built.
\<close>

theorem StatusPacket_init_by_length:
  "StatusPacket_init pkt =
     (if 7 \<le> length pkt
      then Inr \<lparr>temp = ConvertTemp (pkt ! 5) (pkt ! 6), ticks = pkt ! 3 * 256 + pkt ! 4,
                fridge = pkt ! 1, valve = pkt ! 2\<rparr>
      else Inl IndexError)
   \<and> StatusPacket_init [1, 0, 1, 0, 5] = Inl IndexError"
  by (simp add: StatusPacket_init_def py_index_def)

text \<open>
  C4. For a sign byte and a magnitude byte, each in 0..255, the decoded temperature is
  \<open>((sign_byte & 0x07) * 256 + magnitude_byte) * 0.0625\<close>, negated exactly when one of
  the upper five bits of the sign byte (mask 0xF8) is set; sign byte 0x00 with magnitude
  byte 0x10 gives 1.
\<close>

theorem ConvertTemp_bytes:
  assumes "0 \<le> sign_byte" "sign_byte \<le> 255" "0 \<le> magnitude_byte" "magnitude_byte \<le> 255"
  shows "ConvertTemp sign_byte magnitude_byte =
           (if sign_byte AND 0xF8 \<noteq> 0
            then - (real_of_int ((sign_byte AND 0x07) * 256 + magnitude_byte) * 0.0625)
            else real_of_int ((sign_byte AND 0x07) * 256 + magnitude_byte) * 0.0625)
         \<and> ConvertTemp 0x00 0x10 = 1"
proof -
  from assms have "sign_byte \<in> set [0..255]" by simp
  with upper_bits_byte have "(drop_bit 3 sign_byte \<noteq> 0) = (sign_byte AND 0xF8 \<noteq> 0)"
    by blast
  then show ?thesis by (simp add: ConvertTemp_def)
qed

theorem ConvertTemp_bytes_witness:
  "ConvertTemp 0x08 0x10 = -1 \<and> ConvertTemp 0x00 0x10 = 1"
  using ConvertTemp_bytes [of "0x08" "0x10"] by simp

text \<open>
  C6. A line that does not begin with \<open>M:\<close> but begins with \<open>K\<close> (the board's
  banner) makes \<open>recvPacket\<close> return \<open>None\<close> without raising; no packet is built,
  and the controller afterwards differs from the one before only by the one
  \<open>Found board\<close> message handed to the logger, so \<open>total_ticks\<close> and the held
  snapshot are unchanged.
\<close>

theorem board_banner_only_logged:
  assumes "\<not> startswith line ''M:''" and "startswith line ''K''"
  shows "recvPacket line s =
           (Inr None, s\<lparr>logger := logger s @ [(INFO, ''Found board: '' @ slice_to_m2 line)]\<rparr>)
         \<and> total_ticks (snd (recvPacket line s)) = total_ticks s
         \<and> status (snd (recvPacket line s)) = status s"
proof -
  from assms(2) have "line \<noteq> []" by (auto simp: startswith_def)
  with assms show ?thesis by (simp add: recvPacket_def log_msg_def)
qed

theorem board_banner_only_logged_witness:
  "\<not> startswith ''Kegboard v2'' ''M:'' \<and> startswith ''Kegboard v2'' ''K''
   \<and> recvPacket ''Kegboard v2'' FlowController_init =
       (Inr None, FlowController_init\<lparr>logger := [(INFO, ''Found board: Kegboard '')]\<rparr>)"
proof -
  have h1: "\<not> startswith ''Kegboard v2'' ''M:''" by (simp add: startswith_def)
  have h2: "startswith ''Kegboard v2'' ''K''" by (simp add: startswith_def)
  from board_banner_only_logged [OF h1 h2, of FlowController_init] h1 h2
  show ?thesis by (simp add: slice_to_m2_def ctl_eval)
qed

section \<open>The receive loop\<close>

text \<open>
  C5. After a run of accepted frames \<open>total_ticks\<close> is to be the total before plus the
  sum of their tick fields, and \<open>total_ticks\<close> is never to decrease. The second part
  holds, over one call of \<open>recvPacket\<close> on any line and over any run of \<open>statusLoop\<close>.
  The first fails on the frames the docstring documents: a nine-byte frame \<open>M:\<close>, five
  payload bytes, CR LF adds nothing, whatever its tick bytes, because the constructor
  raises before \<open>total_ticks\<close> is touched and the loop ends. Two such frames with tick
  fields 5 and 258, read by a fresh controller, leave \<open>total_ticks\<close> at 0 where 263 is
  due. (On frames with a payload of seven bytes or more the sum is right, timeouts in
  between or not: \<open>statusLoop_long_frames\<close>.)
\<close>

theorem documented_frames_add_no_ticks:
  "total_ticks (snd (statusLoop
       (Readable [CHR ''M'', CHR '':'', b0, b1, b2, hi, lo, CHR 0x0D, CHR 0x0A] # ps) s))
     = total_ticks s
   \<and> total_ticks (snd (statusLoop
       [Readable [CHR ''M'', CHR '':'', CHR 0x01, CHR 0x00, CHR 0x01, CHR 0x00, CHR 0x05,
                  CHR 0x0D, CHR 0x0A],
        Readable [CHR ''M'', CHR '':'', CHR 0x01, CHR 0x00, CHR 0x01, CHR 0x01, CHR 0x02,
                  CHR 0x0D, CHR 0x0A]] FlowController_init))
     = 0
   \<and> total_ticks s \<le> total_ticks (snd (recvPacket line s))
   \<and> total_ticks s \<le> total_ticks (snd (statusLoop qs s))"
proof -
  have nine: "total_ticks (snd (statusLoop
       (Readable [CHR ''M'', CHR '':'', c0, c1, c2, c3, c4, CHR 0x0D, CHR 0x0A] # rs) r))
     = total_ticks r" for c0 c1 c2 c3 c4 rs r
    by (simp add: statusLoop_def recvPacket_def startswith_def endswith_def slice_2_m2_def
        StatusPacket_init_def py_index_def log_msg_def)
  have fresh: "total_ticks FlowController_init = 0"
    by (simp add: ctl_eval)
  from nine [of b0 b1 b2 hi lo ps s]
    nine [of "CHR 0x01" "CHR 0x00" "CHR 0x01" "CHR 0x00" "CHR 0x05" _ FlowController_init]
    fresh recvPacket_total_mono [of s line] statusLoop_total_mono [of s qs]
  show ?thesis by simp
qed

text \<open>
  C8. On end of stream (\<open>readline()\<close> returns the empty string) the process is to
  terminate after logging. \<open>recvPacket\<close> logs and raises \<open>SystemExit(1)\<close>, but it is
  called inside the \<open>try\<close> of \<open>statusLoop\<close>, whose bare \<open>except:\<close> catches
  \<open>SystemExit\<close> as well: the thread's \<open>run\<close> logs \<open>packet read error\<close> and returns
  normally, with no exception left to end the process. The later lines are not read.
\<close>

theorem end_of_stream_caught:
  "recvPacket [] s =
     (Inl (SystemExit 1),
      s\<lparr>logger := logger s @ [(ERROR, ''ERROR: Flow device went away; exiting!'')]\<rparr>)
   \<and> run (Readable [] # ps) s =
     (Inr (), s\<lparr>logger := logger s @ [(INFO, ''status loop starting''),
                                         (ERROR, ''ERROR: Flow device went away; exiting!''),
                                         (ERROR, ''packet read error'')]\<rparr>)"
  by (simp add: run_def statusLoop_def recvPacket_def log_msg_def)

text \<open>
  C9. \<open>__init__\<close> leaves the snapshot \<open>None\<close> and \<open>fridgeStatus\<close> reads
  \<open>self.status.fridge\<close> with no test: on the fresh controller, and after any run of the
  receive loop in which no line was accepted, \<open>fridgeStatus\<close> raises
  \<open>AttributeError\<close>.
\<close>

theorem fridgeStatus_before_first_packet:
  "fridgeStatus FlowController_init = Inl AttributeError
   \<and> ((\<forall>line. Readable line \<in> set ps \<longrightarrow> \<not> accepted line) \<longrightarrow>
        fridgeStatus (snd (statusLoop ps FlowController_init)) = Inl AttributeError)"
proof -
  have init: "status FlowController_init = None" by (simp add: ctl_eval)
  have "status (snd (statusLoop ps FlowController_init)) = None"
    if "\<forall>line. Readable line \<in> set ps \<longrightarrow> \<not> accepted line"
    using status_while_rejected [OF that, of "log_msg INFO ''status loop starting'' FlowController_init"] init
    by (simp add: statusLoop_status) (simp add: log_msg_def)
  with init show ?thesis by (simp add: fridgeStatus_def)
qed

theorem fridgeStatus_before_first_packet_witness:
  "\<not> accepted ''Kegboard v2'' \<and> \<not> accepted ''garbage''
   \<and> fridgeStatus (snd (statusLoop [Timeout, Readable ''Kegboard v2'', Readable ''garbage'']
        FlowController_init)) = Inl AttributeError"
proof -
  have r1: "\<not> accepted ''Kegboard v2''" by (simp add: ctl_eval frame_eval)
  have r2: "\<not> accepted ''garbage''" by (simp add: ctl_eval frame_eval)
  from r1 r2
  have h: "\<forall>line. Readable line \<in> set [Timeout, Readable ''Kegboard v2'', Readable ''garbage'']
             \<longrightarrow> \<not> accepted line"
    by auto
  from fridgeStatus_before_first_packet
         [of "[Timeout, Readable ''Kegboard v2'', Readable ''garbage'']"] h
  have "fridgeStatus (snd (statusLoop [Timeout, Readable ''Kegboard v2'', Readable ''garbage'']
          FlowController_init)) = Inl AttributeError"
    by blast
  with r1 r2 show ?thesis by simp
qed

section \<open>The write path\<close>

text \<open>
  C7. Every call of \<open>enableFridge\<close>, whatever the time since the previous activation,
  stores the current time in \<open>last_fridge_time\<close> and writes the one byte
  \<open>CMD_FRIDGEON\<close> (0x90) to the device; nothing else of the controller changes.
\<close>

theorem enableFridge_always_writes:
  "last_fridge_time (enableFridge now s) = now
   \<and> devpipe (enableFridge now s) = devpipe s @ [CHR 0x90]
   \<and> total_ticks (enableFridge now s) = total_ticks s
   \<and> status (enableFridge now s) = status s
   \<and> logger (enableFridge now s) = logger s"
  by (simp add: enableFridge_def write_cmd_def CMD_FRIDGEON_def)

section \<open>The simulator\<close>

text \<open>
  C10. \<open>FlowSimulator.readTicks\<close> does not read the valve: setting the valve field, and
  \<open>closeValve\<close> in particular, leaves its answer the same. While the elapsed time
  \<open>now - open_time\<close> is at most 180143985094819 s in magnitude (so that 50 times it stays
  below \<open>2^53\<close>) the answer is \<open>max(0, int(50 * (now - open_time)))\<close>, the difference and
  the product rounded as floats. After the valve is closed the count is not frozen:
  once \<open>n\<close> whole seconds have passed since the opening it is at least \<open>50 * n\<close>, and
  before \<open>m\<close> whole seconds have passed it is at most \<open>50 * m\<close>. On the fresh simulator
  \<open>open_time\<close> is 0, so the same bounds hold with the wall-clock time itself: from
  time 1 on the answer is at least 50, not 0.
\<close>

theorem sim_readTicks_ignores_valve:
  assumes "double_rounding rnd"
  shows "sim_readTicks rnd now (s\<lparr>sim_valve := v\<rparr>) = sim_readTicks rnd now s
    \<and> sim_readTicks rnd now (sim_closeValve s) = sim_readTicks rnd now s
    \<and> (\<bar>now - open_time s\<bar> \<le> real_of_int m \<and> m \<le> 180143985094819 \<longrightarrow>
         sim_readTicks rnd now s
           = Inr (max 0 (py_int (rnd (50 * rnd (now - open_time s))))))
    \<and> (0 \<le> n \<and> m \<le> 180143985094819
         \<and> real_of_int n \<le> now - open_time s \<and> now - open_time s \<le> real_of_int m \<longrightarrow>
         (\<exists>k. sim_readTicks rnd now (sim_closeValve s) = Inr k \<and> 50 * n \<le> k \<and> k \<le> 50 * m))
    \<and> (0 \<le> n \<and> m \<le> 180143985094819 \<and> real_of_int n \<le> now \<and> now \<le> real_of_int m \<longrightarrow>
         (\<exists>k. sim_readTicks rnd now FlowSimulator_init = Inr k \<and> 50 * n \<le> k \<and> k \<le> 50 * m))"
proof -
  have valve: "sim_readTicks rnd now (s\<lparr>sim_valve := v\<rparr>) = sim_readTicks rnd now s" for v
    by (simp add: sim_readTicks_def)
  have close: "sim_readTicks rnd now (sim_closeValve s) = sim_readTicks rnd now s"
    by (simp add: sim_closeValve_def valve)
  have fresh: "open_time FlowSimulator_init = 0"
    by (simp add: FlowSimulator_init_def)
  have formula: "sim_readTicks rnd now s
           = Inr (max 0 (py_int (rnd (50 * rnd (now - open_time s)))))"
    if "\<bar>now - open_time s\<bar> \<le> real_of_int m" "m \<le> 180143985094819"
    using sim_readTicks_in_range [OF assms that(2) that(1)] .
  have after_close: "\<exists>k. sim_readTicks rnd now (sim_closeValve s) = Inr k \<and> 50 * n \<le> k \<and> k \<le> 50 * m"
    if "0 \<le> n" "m \<le> 180143985094819"
       "real_of_int n \<le> now - open_time s" "now - open_time s \<le> real_of_int m"
    using sim_readTicks_bracket [OF assms that] by (simp add: close)
  have before_open: "\<exists>k. sim_readTicks rnd now FlowSimulator_init = Inr k \<and> 50 * n \<le> k \<and> k \<le> 50 * m"
    if "0 \<le> n" "m \<le> 180143985094819" "real_of_int n \<le> now" "now \<le> real_of_int m"
    using sim_readTicks_bracket [OF assms that(1) that(2), of now FlowSimulator_init] that(3) that(4)
    by (simp add: fresh)
  from valve close formula after_close before_open show ?thesis by blast
qed

theorem sim_readTicks_ignores_valve_witness:
  "double_rounding round_1024
   \<and> sim_readTicks round_1024 103 (sim_closeValve (sim_openValve 100 FlowSimulator_init)) = Inr 150
   \<and> sim_readTicks round_1024 100 FlowSimulator_init = Inr 5000"
proof -
  have v1: "sim_readTicks round_1024 103 (sim_closeValve (sim_openValve 100 FlowSimulator_init)) = Inr 150"
  proof -
    let ?s = "sim_openValve 100 FlowSimulator_init"
    have o: "open_time ?s = 100"
      by (simp add: sim_openValve_def)
    from sim_readTicks_ignores_valve [OF round_1024_rounding,
        where now = 103 and s = ?s and n = 3 and m = 3]
    have "(0::int) \<le> 3 \<and> (3::int) \<le> 180143985094819
         \<and> real_of_int 3 \<le> 103 - open_time ?s \<and> 103 - open_time ?s \<le> real_of_int 3 \<longrightarrow>
         (\<exists>k. sim_readTicks round_1024 103 (sim_closeValve ?s) = Inr k \<and> 50 * 3 \<le> k \<and> k \<le> 50 * 3)"
      by blast
    with o obtain k where "sim_readTicks round_1024 103 (sim_closeValve ?s) = Inr k"
      and "150 \<le> k" and "k \<le> 150"
      by auto
    then show ?thesis by simp
  qed
  have v2: "sim_readTicks round_1024 100 FlowSimulator_init = Inr 5000"
  proof -
    from sim_readTicks_ignores_valve [OF round_1024_rounding,
        where now = 100 and n = 100 and m = 100]
    have "(0::int) \<le> 100 \<and> (100::int) \<le> 180143985094819
         \<and> real_of_int 100 \<le> 100 \<and> 100 \<le> real_of_int 100 \<longrightarrow>
         (\<exists>k. sim_readTicks round_1024 100 FlowSimulator_init = Inr k
              \<and> 50 * 100 \<le> k \<and> k \<le> 50 * 100)"
      by blast
    then obtain k where "sim_readTicks round_1024 100 FlowSimulator_init = Inr k"
      and "5000 \<le> k" and "k \<le> 5000"
      by auto
    then show ?thesis by simp
  qed
  from round_1024_rounding v1 v2 show ?thesis by simp
qed

end
